theory Spec2Isabelle
  imports Main
begin

section \<open>Rate limiter (src/lib/rate-limit.ts)\<close>

text \<open>
  Times are milliseconds since the epoch, as \<^verbatim>\<open>Date.now()\<close> returns them; counts and
  limits are JavaScript numbers holding integers, modelled as \<^typ>\<open>int\<close>.

  \<^verbatim>\<open>interface RateLimitEntry { count: number; resetTime: number; }\<close>
\<close>

record RateLimitEntry =
  count :: int
  resetTime :: int

text \<open>
  \<^verbatim>\<open>interface RateLimitResult { success: boolean; remaining: number; resetTime?: number; }\<close>

  The optional field \<^verbatim>\<open>resetTime\<close> of the result is \<open>result_resetTime\<close> here (the name
  \<open>resetTime\<close> is the entry's field); \<open>None\<close> is an absent field.
\<close>

record RateLimitResult =
  success :: bool
  remaining :: int
  result_resetTime :: "int option"

text \<open>The two constructor arguments shared by both limiter classes.\<close>

record limiter_config =
  maxRequests :: int
  windowSeconds :: int

type_synonym limiter_store = "string \<rightharpoonup> RateLimitEntry"

text \<open>
  \<^verbatim>\<open>InMemoryRateLimiter.limit(identifier)\<close>, with the clock reading \<open>now\<close> and the
  \<^verbatim>\<open>Map\<close> held in \<^verbatim>\<open>this.store\<close> passed in and returned. A missing entry
  (\<^verbatim>\<open>!entry\<close>) is \<open>None\<close>; \<^verbatim>\<open>entry.count++\<close> updates the stored object in place.
\<close>

definition InMemoryRateLimiter_limit ::
  "limiter_config \<Rightarrow> int \<Rightarrow> string \<Rightarrow> limiter_store \<Rightarrow> RateLimitResult \<times> limiter_store" where
  "InMemoryRateLimiter_limit cfg now identifier store =
     (let windowMs = windowSeconds cfg * 1000;
          fresh = (\<lparr>success = True, remaining = maxRequests cfg - 1, result_resetTime = None\<rparr>,
                   store(identifier \<mapsto> \<lparr>count = 1, resetTime = now + windowMs\<rparr>))
      in case store identifier of
           None \<Rightarrow> fresh
         | Some entry \<Rightarrow>
             if now > resetTime entry then fresh
             else if count entry \<ge> maxRequests cfg then
               (\<lparr>success = False, remaining = 0, result_resetTime = Some (resetTime entry)\<rparr>, store)
             else
               (\<lparr>success = True, remaining = maxRequests cfg - (count entry + 1),
                 result_resetTime = None\<rparr>,
                store(identifier \<mapsto> entry\<lparr>count := count entry + 1\<rparr>)))"

text \<open>
  A sequence of calls \<open>(now, identifier)\<close> made one after the other on the same limiter:
  the results in call order, each tagged with its identifier, and the final store.
\<close>

fun limit_calls ::
  "limiter_config \<Rightarrow> (int \<times> string) list \<Rightarrow> limiter_store
     \<Rightarrow> (string \<times> RateLimitResult) list \<times> limiter_store" where
  "limit_calls cfg [] store = ([], store)"
| "limit_calls cfg ((now, identifier) # calls) store =
     (let (r, store') = InMemoryRateLimiter_limit cfg now identifier store;
          (rs, store'') = limit_calls cfg calls store'
      in ((identifier, r) # rs, store''))"

text \<open>The results a given identifier received, in order.\<close>

definition results_for :: "string \<Rightarrow> (string \<times> RateLimitResult) list \<Rightarrow> RateLimitResult list" where
  "results_for identifier rs = map snd (filter (\<lambda>p. fst p = identifier) rs)"

text \<open>The two result shapes of the local limiter inside a running window.\<close>

definition admitted :: "limiter_config \<Rightarrow> int \<Rightarrow> RateLimitResult" where
  "admitted cfg used = \<lparr>success = True, remaining = maxRequests cfg - used, result_resetTime = None\<rparr>"

definition denied :: "int \<Rightarrow> RateLimitResult" where
  "denied r = \<lparr>success = False, remaining = 0, result_resetTime = Some r\<rparr>"

subsection \<open>The remote limiter\<close>

text \<open>
  \<^verbatim>\<open>UpstashRateLimiter.limit\<close> talks to the store through \<^verbatim>\<open>fetch\<close>. The two requests
  it can issue are \<^verbatim>\<open>GET <url>/incr/<key>\<close> and \<^verbatim>\<open>GET <url>/expire/<key>/<seconds>\<close>;
  the base URL and the bearer token are fixed per limiter and are part of the
  environment. What the network and the store do is a function from the request to its
  outcome: \<open>Inl msg\<close> when the promise returned by \<^verbatim>\<open>fetch\<close> rejects, \<open>Inr response\<close>
  when it resolves.
\<close>

datatype redis_request = Incr string | Expire string int

text \<open>
  The parts of a resolved response that the limiter reads: \<^verbatim>\<open>response.ok\<close>,
  \<^verbatim>\<open>response.statusText\<close>, and what \<^verbatim>\<open>await response.json()\<close> gives: \<open>None\<close> when
  it throws (the body is not JSON), otherwise the \<^verbatim>\<open>result\<close> member of the parsed body.
\<close>

record fetch_response =
  ok :: bool
  fetch_statusText :: string
  json_result :: "int option"

type_synonym fetch_fn = "redis_request \<Rightarrow> string + fetch_response"

text \<open>The values that can be thrown inside the \<^verbatim>\<open>try\<close> block.\<close>

datatype exn = FetchRejected string | Error string | JsonParseError

text \<open>
  The body of the \<^verbatim>\<open>try\<close> block: the requests issued, in order, and either the thrown
  value (\<open>Inl\<close>) or the returned result. The rejection of the \<^verbatim>\<open>expire\<close> request is
  swallowed by its \<^verbatim>\<open>.catch(() => {})\<close>, and its response is not read, so both outcomes
  continue the same way. The local \<^verbatim>\<open>count\<close> of the source is \<open>cnt\<close> here.
\<close>

definition UpstashRateLimiter_try ::
  "limiter_config \<Rightarrow> fetch_fn \<Rightarrow> string \<Rightarrow> redis_request list \<times> (exn + RateLimitResult)" where
  "UpstashRateLimiter_try cfg fetch identifier =
     (let key = ''rate_limit:'' @ identifier in
      case fetch (Incr key) of
        Inl err \<Rightarrow> ([Incr key], Inl (FetchRejected err))
      | Inr response \<Rightarrow>
          if \<not> ok response then
            ([Incr key], Inl (Error (''Redis error: '' @ fetch_statusText response)))
          else
            (case json_result response of
               None \<Rightarrow> ([Incr key], Inl JsonParseError)
             | Some cnt \<Rightarrow>
                 (let expire = (if cnt = 1 then
                                  (case fetch (Expire key (windowSeconds cfg)) of
                                     Inl err \<Rightarrow> [Expire key (windowSeconds cfg)]
                                   | Inr r \<Rightarrow> [Expire key (windowSeconds cfg)])
                                else [])
                  in if cnt > maxRequests cfg then
                       (Incr key # expire,
                        Inr \<lparr>success = False, remaining = 0, result_resetTime = None\<rparr>)
                     else
                       (Incr key # expire,
                        Inr \<lparr>success = True, remaining = maxRequests cfg - cnt,
                             result_resetTime = None\<rparr>))))"

text \<open>
  One call of \<^verbatim>\<open>limit\<close> as its caller and the operator see it: the requests issued,
  the values passed to \<^verbatim>\<open>console.error\<close>, and what the call gives back, where \<open>Inl\<close>
  would be an exception reaching the caller and \<open>Inr\<close> is a returned result.
\<close>

record upstash_call =
  requests :: "redis_request list"
  logged :: "exn list"
  returned :: "exn + RateLimitResult"

definition UpstashRateLimiter_limit :: "limiter_config \<Rightarrow> fetch_fn \<Rightarrow> string \<Rightarrow> upstash_call" where
  "UpstashRateLimiter_limit cfg fetch identifier =
     (case UpstashRateLimiter_try cfg fetch identifier of
        (reqs, Inl error) \<Rightarrow>
          \<lparr>requests = reqs, logged = [error],
           returned = Inr \<lparr>success = True, remaining = maxRequests cfg, result_resetTime = None\<rparr>\<rparr>
      | (reqs, Inr result) \<Rightarrow> \<lparr>requests = reqs, logged = [], returned = Inr result\<rparr>)"



fun store_counts :: "int \<Rightarrow> fetch_fn" where
  "store_counts n (Incr key) = Inr \<lparr>ok = True, fetch_statusText = ''OK'', json_result = Some n\<rparr>"
| "store_counts n (Expire key ttl) =
     Inr \<lparr>ok = True, fetch_statusText = ''OK'', json_result = Some 1\<rparr>"


section \<open>Response envelope (src/lib/api-response.ts)\<close>

text \<open>
  The values a caller can pass as \<^verbatim>\<open>data\<close> (the type parameter \<^verbatim>\<open>T\<close> is unbounded), as
  far as \<^verbatim>\<open>JSON.stringify\<close> tells them apart: \<^verbatim>\<open>undefined\<close>, \<^verbatim>\<open>null\<close>, booleans, finite
  numbers (as integers; a fraction is kept in the same way), the non-finite numbers (\<^verbatim>\<open>NaN\<close> and the infinities), strings, symbols,
  functions, arrays, objects as the list of their own enumerable string-keyed properties
  in insertion order, and objects that have a \<^verbatim>\<open>toJSON\<close> method (a \<^verbatim>\<open>Date\<close>, for
  instance), given by their own properties and the value the method returns. Values on
  which \<^verbatim>\<open>JSON.stringify\<close> throws (a \<^verbatim>\<open>BigInt\<close>, a cyclic object, a \<^verbatim>\<open>toJSON\<close> method or
  getter that throws) make \<^verbatim>\<open>NextResponse.json\<close> throw: no response is produced for
  them, and they are not values of this type.
\<close>

datatype jsval =
    JUndefined
  | JNull
  | JBool bool
  | JNum int
  | JNonFinite
  | JStr string
  | JSymbol
  | JFunction
  | JArr "jsval list"
  | JObj "(string \<times> jsval) list"
  | JObjToJSON "(string \<times> jsval) list" jsval

type_synonym js_object = "(string \<times> jsval) list"

text \<open>
  ECMAScript's \<^verbatim>\<open>SerializeJSONProperty\<close>, as the value a client parses back: \<open>None\<close> is
  the result \<^verbatim>\<open>undefined\<close>, for which the member is left out of an object and replaced by
  \<^verbatim>\<open>null\<close> in an array. The flag says whether the \<^verbatim>\<open>toJSON\<close> step is still to be done:
  the algorithm calls \<^verbatim>\<open>toJSON\<close> once on the value of a property and serializes what it
  returns without calling \<^verbatim>\<open>toJSON\<close> on that result again (its \<^verbatim>\<open>toJSON\<close> member, a
  function, is left out like any function-valued member).
\<close>

fun SerializeJSONProperty :: "bool \<Rightarrow> jsval \<Rightarrow> jsval option" where
  "SerializeJSONProperty call JUndefined = None"
| "SerializeJSONProperty call JSymbol = None"
| "SerializeJSONProperty call JFunction = None"
| "SerializeJSONProperty call JNull = Some JNull"
| "SerializeJSONProperty call (JBool b) = Some (JBool b)"
| "SerializeJSONProperty call (JNum n) = Some (JNum n)"
| "SerializeJSONProperty call JNonFinite = Some JNull"
| "SerializeJSONProperty call (JStr s) = Some (JStr s)"
| "SerializeJSONProperty call (JArr xs) =
     Some (JArr (map (\<lambda>x. case SerializeJSONProperty True x of None \<Rightarrow> JNull | Some j \<Rightarrow> j) xs))"
| "SerializeJSONProperty call (JObj ms) =
     Some (JObj (concat (map (\<lambda>p. case SerializeJSONProperty True (snd p) of
                                    None \<Rightarrow> [] | Some j \<Rightarrow> [(fst p, j)]) ms)))"
| "SerializeJSONProperty call (JObjToJSON ms r) =
     (if call then SerializeJSONProperty False r
      else Some (JObj (concat (map (\<lambda>p. case SerializeJSONProperty True (snd p) of
                                    None \<Rightarrow> [] | Some j \<Rightarrow> [(fst p, j)]) ms))))"

text \<open>The value that is serialized for a property: the result of its \<^verbatim>\<open>toJSON\<close> method
  when it has one, the value itself otherwise.\<close>

definition toJSON_result :: "jsval \<Rightarrow> jsval" where
  "toJSON_result v = (case v of JObjToJSON ms r \<Rightarrow> r | _ \<Rightarrow> v)"

text \<open>
  \<^verbatim>\<open>NextResponse.json(body, { status })\<close> sends \<^verbatim>\<open>JSON.stringify(body)\<close> for the object
  literal \<^verbatim>\<open>body\<close>: each member is serialized, and a member whose serialization is
  \<^verbatim>\<open>undefined\<close> is left out. The response is modelled by the members of the object a
  client parses back and by the status.
\<close>

record json_response =
  json_body :: js_object
  json_status :: int

definition JSON_members :: "js_object \<Rightarrow> js_object" where
  "JSON_members obj =
     concat (map (\<lambda>p. case SerializeJSONProperty True (snd p) of
                         None \<Rightarrow> [] | Some j \<Rightarrow> [(fst p, j)]) obj)"

definition NextResponse_json :: "js_object \<Rightarrow> int \<Rightarrow> json_response" where
  "NextResponse_json obj st = \<lparr>json_body = JSON_members obj, json_status = st\<rparr>"

text \<open>A parameter with a default value: \<open>None\<close> is an omitted argument.\<close>

definition default_status :: "int \<Rightarrow> int option \<Rightarrow> int" where
  "default_status d st = (case st of None \<Rightarrow> d | Some s \<Rightarrow> s)"

text \<open>\<^verbatim>\<open>apiSuccess(data, status = 200)\<close>: the literal \<^verbatim>\<open>{ success: true, data }\<close>.\<close>

definition apiSuccess :: "jsval \<Rightarrow> int option \<Rightarrow> json_response" where
  "apiSuccess data st =
     NextResponse_json [(''success'', JBool True), (''data'', data)] (default_status 200 st)"

text \<open>
  \<^verbatim>\<open>...(code && { code })\<close>: an omitted code (\<open>None\<close>) and the empty string are falsy and
  spread no property; any other string spreads the single property \<^verbatim>\<open>code\<close>.
\<close>

definition spread_code :: "string option \<Rightarrow> js_object" where
  "spread_code code =
     (case code of
        None \<Rightarrow> []
      | Some c \<Rightarrow> if c = [] then [] else [(''code'', JStr c)])"

text \<open>\<^verbatim>\<open>apiError(message, status = 500, code?)\<close>.\<close>

definition apiError :: "string \<Rightarrow> int option \<Rightarrow> string option \<Rightarrow> json_response" where
  "apiError message st code =
     NextResponse_json ([(''success'', JBool False), (''error'', JStr message)] @ spread_code code)
       (default_status 500 st)"

text \<open>The value of a member of the envelope; \<open>None\<close> when the member is absent.\<close>

definition field :: "json_response \<Rightarrow> string \<Rightarrow> jsval option" where
  "field r k = map_of (json_body r) k"

section \<open>CORS boundary (src/lib/cors.ts)\<close>

text \<open>
  A \<^verbatim>\<open>Headers\<close> object maps header names, compared without regard to case, to values:
  a map keyed by the lower-cased name.
\<close>

type_synonym header_map = "string \<rightharpoonup> string"

definition toLowerCase_char :: "char \<Rightarrow> char" where
  "toLowerCase_char c =
     (let n = (of_char c :: nat) in if 65 \<le> n \<and> n \<le> 90 then char_of (n + 32) else c)"

definition toLowerCase :: "string \<Rightarrow> string" where
  "toLowerCase s = map toLowerCase_char s"

definition headers_get :: "header_map \<Rightarrow> string \<Rightarrow> string option" where
  "headers_get m name = m (toLowerCase name)"

definition headers_set :: "header_map \<Rightarrow> string \<Rightarrow> string \<Rightarrow> header_map" where
  "headers_set m name v = m(toLowerCase name \<mapsto> v)"

text \<open>
  Responses and their \<^verbatim>\<open>Headers\<close> objects are mutable objects reached through
  references, so they live in a store: a response holds the address of its headers
  object, and \<open>next_free\<close> is the next address \<^verbatim>\<open>new\<close> hands out. The body is a reference
  to a stream (or \<^verbatim>\<open>null\<close>); the function passes it on and never reads it. The request is
  only read.
\<close>

type_synonym addr = nat

record NextRequest =
  request_headers :: header_map

record NextResponse =
  body :: "addr option"
  status :: int
  statusText :: string
  headers :: addr

record heap =
  responses :: "addr \<rightharpoonup> NextResponse"
  headers_objects :: "addr \<rightharpoonup> header_map"
  next_free :: addr

text \<open>\<^verbatim>\<open>new Headers(init)\<close>: a new object holding a copy of the given entries.\<close>

definition new_Headers :: "header_map \<Rightarrow> heap \<Rightarrow> addr \<times> heap" where
  "new_Headers init h =
     (next_free h,
      h\<lparr>headers_objects := (headers_objects h)(next_free h \<mapsto> init),
        next_free := Suc (next_free h)\<rparr>)"

text \<open>
  \<^verbatim>\<open>new NextResponse(body, { status, statusText, headers })\<close>: the constructor creates the
  response's own headers object, filled from \<^verbatim>\<open>init.headers\<close> when given, and then the
  response.
\<close>

definition new_NextResponse ::
  "addr option \<Rightarrow> int \<Rightarrow> string \<Rightarrow> addr option \<Rightarrow> heap \<Rightarrow> addr \<times> heap" where
  "new_NextResponse b st txt init h =
     (let filled = (case init of
                      None \<Rightarrow> Map.empty
                    | Some i \<Rightarrow> (case headers_objects h i of None \<Rightarrow> Map.empty | Some m \<Rightarrow> m));
          (ha, h1) = new_Headers filled h;
          ra = next_free h1
      in (ra, h1\<lparr>responses := (responses h1)(ra \<mapsto>
                     \<lparr>body = b, status = st, statusText = txt, headers = ha\<rparr>),
                  next_free := Suc ra\<rparr>))"

text \<open>\<^verbatim>\<open>response.headers.set(name, value)\<close> and \<^verbatim>\<open>response.headers.get(name)\<close> on the
  response at an address.\<close>

definition response_headers_set :: "addr \<Rightarrow> string \<Rightarrow> string \<Rightarrow> heap \<Rightarrow> heap" where
  "response_headers_set a name v h =
     (case responses h a of
        None \<Rightarrow> h
      | Some r \<Rightarrow>
          (case headers_objects h (headers r) of
             None \<Rightarrow> h
           | Some m \<Rightarrow>
               h\<lparr>headers_objects := (headers_objects h)(headers r \<mapsto> headers_set m name v)\<rparr>))"

definition response_headers_get :: "heap \<Rightarrow> addr \<Rightarrow> string \<Rightarrow> string option" where
  "response_headers_get h a name =
     (case responses h a of
        None \<Rightarrow> None
      | Some r \<Rightarrow>
          (case headers_objects h (headers r) of
             None \<Rightarrow> None
           | Some m \<Rightarrow> headers_get m name))"

text \<open>
  \<^verbatim>\<open>ALLOWED_ORIGINS\<close>, with \<^verbatim>\<open>process.env.NEXT_PUBLIC_APP_URL\<close> as a parameter (\<open>None\<close> when
  unset); \<^verbatim>\<open>.filter(Boolean)\<close> drops an unset and an empty value.
\<close>

definition Boolean :: "string option \<Rightarrow> bool" where
  "Boolean v = (case v of None \<Rightarrow> False | Some s \<Rightarrow> s \<noteq> [])"

definition ALLOWED_ORIGINS :: "string option \<Rightarrow> string list" where
  "ALLOWED_ORIGINS app_url =
     List.map_filter (\<lambda>v. if Boolean v then v else None)
       [Some ''http://localhost:3000'', Some ''http://localhost:3001'', app_url]"

definition ALLOWED_METHODS :: "string list" where
  "ALLOWED_METHODS = [''GET'', ''POST'', ''PUT'', ''DELETE'', ''PATCH'', ''OPTIONS'']"

definition ALLOWED_HEADERS :: "string list" where
  "ALLOWED_HEADERS =
     [''Content-Type'', ''Authorization'', ''X-Requested-With'', ''Accept'', ''Origin'']"

text \<open>\<^verbatim>\<open>Array.prototype.join\<close>.\<close>

fun join :: "string list \<Rightarrow> string \<Rightarrow> string" where
  "join [] sep = []"
| "join [x] sep = x"
| "join (x # y # ys) sep = x @ sep @ join (y # ys) sep"

text \<open>
  \<^verbatim>\<open>withCorsHeaders(request, response?)\<close>. The optional response is the address of the
  supplied object (\<open>None\<close> when the argument is omitted); \<^verbatim>\<open>origin\<close> is \<open>None\<close> when the
  request has no such header. The result is the address of the returned response and the
  store after the call; it is \<open>None\<close> only for a reference to no object, which a
  JavaScript caller cannot hold.
\<close>

definition withCorsHeaders ::
  "string option \<Rightarrow> NextRequest \<Rightarrow> addr option \<Rightarrow> heap \<Rightarrow> (addr \<times> heap) option" where
  "withCorsHeaders app_url request response h =
     (let origin = headers_get (request_headers request) ''origin'';
          isAllowedOrigin =
            (case origin of
               None \<Rightarrow> True
             | Some x \<Rightarrow> x = [] \<or> x \<in> set (ALLOWED_ORIGINS app_url));
          cloned =
            (case response of
               Some a \<Rightarrow>
                 (case responses h a of
                    None \<Rightarrow> None
                  | Some r \<Rightarrow>
                      (case headers_objects h (headers r) of
                         None \<Rightarrow> None
                       | Some m \<Rightarrow>
                           (let (copy, h1) = new_Headers m h
                            in Some (new_NextResponse (body r) (status r) (statusText r)
                                       (Some copy) h1))))
             | None \<Rightarrow> Some (new_NextResponse None 204 [] None h))
      in case cloned of
           None \<Rightarrow> None
         | Some (responseToModify, h2) \<Rightarrow>
             (let h3 = (case origin of
                          None \<Rightarrow> h2
                        | Some x \<Rightarrow>
                            if isAllowedOrigin \<and> x \<noteq> [] then
                              response_headers_set responseToModify
                                ''Access-Control-Allow-Origin'' x h2
                            else h2);
                  h4 = response_headers_set responseToModify ''Access-Control-Allow-Methods''
                         (join ALLOWED_METHODS '', '') h3;
                  h5 = response_headers_set responseToModify ''Access-Control-Allow-Headers''
                         (join ALLOWED_HEADERS '', '') h4;
                  h6 = response_headers_set responseToModify ''Access-Control-Max-Age''
                         ''86400'' h5
              in Some (responseToModify, h6)))"

text \<open>\<^verbatim>\<open>handleCorsPreFlight(request)\<close>.\<close>

definition handleCorsPreFlight ::
  "string option \<Rightarrow> NextRequest \<Rightarrow> heap \<Rightarrow> (addr \<times> heap) option" where
  "handleCorsPreFlight app_url request h =
     (let (fresh, h1) = new_NextResponse None 204 [] None h
      in withCorsHeaders app_url request (Some fresh) h1)"

text \<open>
  The store of a running program: every object in it was handed out by \<^verbatim>\<open>new\<close>, so its
  address, and the address of a response's headers object, lie below \<open>next_free\<close>.
\<close>

definition heap_ok :: "heap \<Rightarrow> bool" where
  "heap_ok h =
     ((\<forall>a r. responses h a = Some r \<longrightarrow> a < next_free h \<and> headers r < next_free h)
      \<and> (\<forall>a m. headers_objects h a = Some m \<longrightarrow> a < next_free h))"

text \<open>The optional response argument refers to a response whose headers object exists.\<close>

definition response_valid :: "heap \<Rightarrow> addr option \<Rightarrow> bool" where
  "response_valid h response =
     (case response of
        None \<Rightarrow> True
      | Some a \<Rightarrow>
          (case responses h a of
             None \<Rightarrow> False
           | Some r \<Rightarrow> headers_objects h (headers r) \<noteq> None))"

text \<open>A header of the response that a call returned.\<close>

definition result_header :: "(addr \<times> heap) option \<Rightarrow> string \<Rightarrow> string option" where
  "result_header res name =
     (case res of None \<Rightarrow> None | Some (a, h) \<Rightarrow> response_headers_get h a name)"

text \<open>The request's origin when it is on the allow-list.\<close>

definition origin_allowed :: "string option \<Rightarrow> NextRequest \<Rightarrow> string option" where
  "origin_allowed app_url request =
     (case headers_get (request_headers request) ''origin'' of
        None \<Rightarrow> None
      | Some x \<Rightarrow> if x \<in> set (ALLOWED_ORIGINS app_url) then Some x else None)"

text \<open>
  The entries of the returned response's headers object after the four \<^verbatim>\<open>set\<close> calls,
  from the entries \<open>m\<close> that were copied into it; and the four names that are set.
\<close>

definition cors_map :: "string option \<Rightarrow> NextRequest \<Rightarrow> header_map \<Rightarrow> header_map" where
  "cors_map app_url request m =
     ((case origin_allowed app_url request of None \<Rightarrow> m
       | Some x \<Rightarrow> m(''access-control-allow-origin'' \<mapsto> x))
      (''access-control-allow-methods'' \<mapsto> ''GET, POST, PUT, DELETE, PATCH, OPTIONS'',
       ''access-control-allow-headers'' \<mapsto>
          ''Content-Type, Authorization, X-Requested-With, Accept, Origin'',
       ''access-control-max-age'' \<mapsto> ''86400''))"

definition cors_names :: "string set" where
  "cors_names = {''access-control-allow-origin'', ''access-control-allow-methods'',
                 ''access-control-allow-headers'', ''access-control-max-age''}"

text \<open>
  A store holding one response (status 200, no body) whose headers object already
  carries an allow-origin header, and two requests: one without an \<^verbatim>\<open>Origin\<close> header, one
  from a listed origin.
\<close>

definition wildcard_heap :: heap where
  "wildcard_heap =
     \<lparr>responses = [0 \<mapsto> \<lparr>body = None, status = 200, statusText = ''OK'', headers = 1\<rparr>],
      headers_objects = [1 \<mapsto> [''access-control-allow-origin'' \<mapsto> ''*'']],
      next_free = 2\<rparr>"

definition request_without_origin :: NextRequest where
  "request_without_origin = \<lparr>request_headers = Map.empty\<rparr>"

definition request_from_localhost :: NextRequest where
  "request_from_localhost = \<lparr>request_headers = [''origin'' \<mapsto> ''http://localhost:3000'']\<rparr>"

section \<open>Properties of the local limiter\<close>

lemma limit_no_entry:
  "store identifier = None \<Longrightarrow>
   InMemoryRateLimiter_limit cfg now identifier store =
     (admitted cfg 1, store(identifier \<mapsto> \<lparr>count = 1, resetTime = now + windowSeconds cfg * 1000\<rparr>))"
  by (simp add: InMemoryRateLimiter_limit_def admitted_def)

lemma limit_in_window_below:
  "store identifier = Some e \<Longrightarrow> now \<le> resetTime e \<Longrightarrow> count e < maxRequests cfg \<Longrightarrow>
   InMemoryRateLimiter_limit cfg now identifier store =
     (admitted cfg (count e + 1), store(identifier \<mapsto> e\<lparr>count := count e + 1\<rparr>))"
  by (simp add: InMemoryRateLimiter_limit_def admitted_def)

lemma limit_in_window_full:
  "store identifier = Some e \<Longrightarrow> now \<le> resetTime e \<Longrightarrow> maxRequests cfg \<le> count e \<Longrightarrow>
   InMemoryRateLimiter_limit cfg now identifier store = (denied (resetTime e), store)"
  by (simp add: InMemoryRateLimiter_limit_def denied_def)

lemma limit_other_identifier:
  "id1 \<noteq> id2 \<Longrightarrow> snd (InMemoryRateLimiter_limit cfg now id1 store) id2 = store id2"
  by (simp add: InMemoryRateLimiter_limit_def Let_def split: option.splits)

lemma limit_result_depends_on_own_entry:
  "store identifier = store' identifier \<Longrightarrow>
   fst (InMemoryRateLimiter_limit cfg now identifier store) =
   fst (InMemoryRateLimiter_limit cfg now identifier store') \<and>
   snd (InMemoryRateLimiter_limit cfg now identifier store) identifier =
   snd (InMemoryRateLimiter_limit cfg now identifier store') identifier"
  by (simp add: InMemoryRateLimiter_limit_def Let_def split: option.splits)

subsection \<open>A run of calls inside one window\<close>

lemma limit_calls_in_window:
  assumes "store identifier = Some e" and "\<forall>t\<in>set ts. t \<le> resetTime e"
  shows "map snd (fst (limit_calls cfg (map (\<lambda>t. (t, identifier)) ts) store)) =
         map (\<lambda>k. if count e + int k < maxRequests cfg
                   then admitted cfg (count e + int k + 1) else denied (resetTime e))
             [0..<length ts]"
  using assms
proof (induction ts arbitrary: store e)
  case Nil
  then show ?case by simp
next
  case (Cons t ts)
  have t: "t \<le> resetTime e" and rest: "\<forall>u\<in>set ts. u \<le> resetTime e"
    using Cons.prems(2) by simp_all
  show ?case
  proof (cases "count e < maxRequests cfg")
    case True
    let ?e' = "e\<lparr>count := count e + 1\<rparr>"
    let ?store' = "store(identifier \<mapsto> ?e')"
    have step: "InMemoryRateLimiter_limit cfg t identifier store = (admitted cfg (count e + 1), ?store')"
      using Cons.prems(1) t True by (simp add: limit_in_window_below)
    have ih: "map snd (fst (limit_calls cfg (map (\<lambda>t. (t, identifier)) ts) ?store')) =
         map (\<lambda>k. if count ?e' + int k < maxRequests cfg
                   then admitted cfg (count ?e' + int k + 1) else denied (resetTime ?e'))
             [0..<length ts]"
      by (rule Cons.IH) (use rest in simp_all)
    show ?thesis
      using True ih by (simp add: step split_beta map_upt_Suc add.commute add.left_commute del: upt_Suc)
  next
    case False
    then have full: "maxRequests cfg \<le> count e" by simp
    have step: "InMemoryRateLimiter_limit cfg t identifier store = (denied (resetTime e), store)"
      using Cons.prems(1) t full by (simp add: limit_in_window_full)
    have ih: "map snd (fst (limit_calls cfg (map (\<lambda>t. (t, identifier)) ts) store)) =
         map (\<lambda>k. if count e + int k < maxRequests cfg
                   then admitted cfg (count e + int k + 1) else denied (resetTime e))
             [0..<length ts]"
      by (rule Cons.IH) (use Cons.prems(1) rest in simp_all)
    show ?thesis
      using full ih by (simp add: step split_beta map_upt_Suc del: upt_Suc)
  qed
qed

text \<open>
  Claim C1 (as amended). For a limiter with \<open>maxRequests = N \<ge> 1\<close> and an identifier
  without an entry, a first call at time \<open>t1\<close> followed by \<open>N\<close> further calls, all
  made no later than \<open>t1 + windowSeconds * 1000\<close>: call number \<open>k\<close> (for \<open>k = 1..N\<close>)
  returns \<open>success = True\<close> with \<open>remaining = N - k\<close> and no \<open>resetTime\<close>, and call
  number \<open>N + 1\<close> returns \<open>success = False\<close>, \<open>remaining = 0\<close>, with the window's end
  as \<open>resetTime\<close>.
\<close>

theorem first_calls_admitted_then_denied:
  assumes "store identifier = None" and "1 \<le> maxRequests cfg"
    and "length ts = nat (maxRequests cfg)"
    and "\<forall>t\<in>set ts. t \<le> t1 + windowSeconds cfg * 1000"
  shows "map snd (fst (limit_calls cfg (map (\<lambda>t. (t, identifier)) (t1 # ts)) store)) =
         map (\<lambda>k. admitted cfg (int k + 1)) [0..<nat (maxRequests cfg)]
           @ [denied (t1 + windowSeconds cfg * 1000)]"
proof -
  let ?r = "t1 + windowSeconds cfg * 1000"
  let ?e = "\<lparr>count = 1, resetTime = ?r\<rparr>"
  let ?store' = "store(identifier \<mapsto> ?e)"
  let ?N = "nat (maxRequests cfg)"
  have step: "InMemoryRateLimiter_limit cfg t1 identifier store = (admitted cfg 1, ?store')"
    using assms(1) by (simp add: limit_no_entry)
  have rest: "map snd (fst (limit_calls cfg (map (\<lambda>t. (t, identifier)) ts) ?store')) =
         map (\<lambda>k. if count ?e + int k < maxRequests cfg
                   then admitted cfg (count ?e + int k + 1) else denied (resetTime ?e))
             [0..<length ts]"
    by (rule limit_calls_in_window) (use assms(4) in simp_all)
  have lhs: "map snd (fst (limit_calls cfg (map (\<lambda>t. (t, identifier)) (t1 # ts)) store)) =
         admitted cfg 1 # map (\<lambda>k. if 1 + int k < maxRequests cfg
                   then admitted cfg (1 + int k + 1) else denied ?r) [0..<?N]"
    using rest assms(3) by (simp add: step split_beta)
  have "admitted cfg 1 # map (\<lambda>k. if 1 + int k < maxRequests cfg
                   then admitted cfg (1 + int k + 1) else denied ?r) [0..<?N] =
        map (\<lambda>k. admitted cfg (int k + 1)) [0..<?N] @ [denied ?r]"
  proof (rule nth_equalityI)
    show "length (admitted cfg 1 # map (\<lambda>k. if 1 + int k < maxRequests cfg
                   then admitted cfg (1 + int k + 1) else denied ?r) [0..<?N]) =
          length (map (\<lambda>k. admitted cfg (int k + 1)) [0..<?N] @ [denied ?r])"
      by simp
  next
    fix i
    assume "i < length (admitted cfg 1 # map (\<lambda>k. if 1 + int k < maxRequests cfg
                   then admitted cfg (1 + int k + 1) else denied ?r) [0..<?N])"
    then have i: "i \<le> ?N" by simp
    show "(admitted cfg 1 # map (\<lambda>k. if 1 + int k < maxRequests cfg
                   then admitted cfg (1 + int k + 1) else denied ?r) [0..<?N]) ! i =
          (map (\<lambda>k. admitted cfg (int k + 1)) [0..<?N] @ [denied ?r]) ! i"
    proof (cases i)
      case 0
      then show ?thesis using assms(2) by (simp add: nth_append)
    next
      case (Suc j)
      then have j: "j < ?N" using i by simp
      show ?thesis
      proof (cases "Suc j < ?N")
        case True
        then have "1 + int j < maxRequests cfg" by linarith
        then show ?thesis using True j Suc by (simp add: nth_append add.commute)
      next
        case False
        then have eq: "Suc j = ?N" using j by simp
        then have "\<not> 1 + int j < maxRequests cfg" by linarith
        then show ?thesis using eq j Suc by (simp add: nth_append)
      qed
    qed
  qed
  with lhs show ?thesis by simp
qed

theorem first_calls_admitted_then_denied_witness:
  "map snd (fst (limit_calls \<lparr>maxRequests = 2, windowSeconds = 60\<rparr>
       [(0, ''A''), (1000, ''A''), (60000, ''A'')] Map.empty)) =
     [\<lparr>success = True, remaining = 1, result_resetTime = None\<rparr>,
      \<lparr>success = True, remaining = 0, result_resetTime = None\<rparr>,
      \<lparr>success = False, remaining = 0, result_resetTime = Some 60000\<rparr>]"
  using first_calls_admitted_then_denied
    [of Map.empty "''A''" "\<lparr>maxRequests = 2, windowSeconds = 60\<rparr>" "[1000, 60000]" 0]
  by (simp add: admitted_def denied_def numeral_2_eq_2)

text \<open>
  Claim C1 as stated covers every \<open>maxRequests\<close>. With \<open>maxRequests = 0\<close> the call
  number \<open>N + 1\<close> is the first call; it takes the branch that creates the entry and is
  admitted with \<open>remaining = -1\<close>, where the claim has \<open>success = False, remaining = 0\<close>.
\<close>

theorem zero_limit_first_call_admitted:
  "InMemoryRateLimiter_limit \<lparr>maxRequests = 0, windowSeconds = 60\<rparr> 0 ''a'' Map.empty =
     (\<lparr>success = True, remaining = - 1, result_resetTime = None\<rparr>,
      [''a'' \<mapsto> \<lparr>count = 1, resetTime = 60000\<rparr>])"
  by (simp add: InMemoryRateLimiter_limit_def)

subsection \<open>Window expiry\<close>

text \<open>
  Claim C3 (as amended). For an identifier with an entry, a call at a time \<open>now\<close>
  strictly after the entry's \<open>resetTime\<close> replaces the entry with
  \<open>\<lparr>count = 1, resetTime = now + windowSeconds * 1000\<rparr>\<close> and returns
  \<open>success = True\<close> with \<open>remaining = maxRequests - 1\<close>.
\<close>

theorem expired_window_resets:
  assumes "store identifier = Some e" and "resetTime e < now"
  shows "InMemoryRateLimiter_limit cfg now identifier store =
           (\<lparr>success = True, remaining = maxRequests cfg - 1, result_resetTime = None\<rparr>,
            store(identifier \<mapsto> \<lparr>count = 1, resetTime = now + windowSeconds cfg * 1000\<rparr>))"
  using assms by (simp add: InMemoryRateLimiter_limit_def)

theorem expired_window_resets_witness:
  "InMemoryRateLimiter_limit \<lparr>maxRequests = 2, windowSeconds = 60\<rparr> 60001 ''a''
       [''a'' \<mapsto> \<lparr>count = 2, resetTime = 60000\<rparr>] =
     (\<lparr>success = True, remaining = 1, result_resetTime = None\<rparr>,
      [''a'' \<mapsto> \<lparr>count = 1, resetTime = 120001\<rparr>])"
  using expired_window_resets
    [of "[''a'' \<mapsto> \<lparr>count = 2, resetTime = 60000\<rparr>]" "''a''"
        "\<lparr>count = 2, resetTime = 60000\<rparr>" 60001 "\<lparr>maxRequests = 2, windowSeconds = 60\<rparr>"]
  by simp

text \<open>
  Claim C3 as stated includes a call at exactly the entry's \<open>resetTime\<close>. The test in the
  source is \<^verbatim>\<open>now > entry.resetTime\<close>, so that call still counts in the old window: with
  \<open>maxRequests = 2\<close> and a 60 second window, a call at time 0 and a call at time 60000
  (a clock advance of exactly the window) return \<open>remaining = 1\<close> and then
  \<open>remaining = 0\<close>, and the entry is \<open>\<lparr>count = 2, resetTime = 60000\<rparr>\<close>, where the claim
  has \<open>remaining = 1\<close> and the entry \<open>\<lparr>count = 1, resetTime = 120000\<rparr>\<close>.
\<close>

theorem call_at_reset_time_keeps_window:
  "map snd (fst (limit_calls \<lparr>maxRequests = 2, windowSeconds = 60\<rparr>
       [(0, ''a''), (60000, ''a'')] Map.empty)) =
     [\<lparr>success = True, remaining = 1, result_resetTime = None\<rparr>,
      \<lparr>success = True, remaining = 0, result_resetTime = None\<rparr>]
   \<and> snd (limit_calls \<lparr>maxRequests = 2, windowSeconds = 60\<rparr>
       [(0, ''a''), (60000, ''a'')] Map.empty) ''a'' = Some \<lparr>count = 2, resetTime = 60000\<rparr>"
  by (simp add: InMemoryRateLimiter_limit_def)

subsection \<open>Independence of identifiers\<close>

lemma limit_calls_without_identifier:
  assumes "\<forall>i. i \<noteq> id1 \<longrightarrow> store i = store' i"
  shows "filter (\<lambda>p. fst p \<noteq> id1) (fst (limit_calls cfg calls store)) =
           fst (limit_calls cfg (filter (\<lambda>c. snd c \<noteq> id1) calls) store')
       \<and> (\<forall>i. i \<noteq> id1 \<longrightarrow>
             snd (limit_calls cfg calls store) i =
             snd (limit_calls cfg (filter (\<lambda>c. snd c \<noteq> id1) calls) store') i)"
  using assms
proof (induction calls arbitrary: store store')
  case Nil
  then show ?case by simp
next
  case (Cons c calls)
  obtain t i where c: "c = (t, i)" by (cases c)
  show ?case
  proof (cases "i = id1")
    case True
    have agree: "\<forall>j. j \<noteq> id1 \<longrightarrow> snd (InMemoryRateLimiter_limit cfg t id1 store) j = store' j"
      using Cons.prems by (simp add: limit_other_identifier)
    show ?thesis
      using Cons.IH [OF agree] by (simp add: c True split_beta)
  next
    case False
    have same: "store i = store' i" using Cons.prems False by simp
    have res: "fst (InMemoryRateLimiter_limit cfg t i store) = fst (InMemoryRateLimiter_limit cfg t i store')"
      using limit_result_depends_on_own_entry [of store i store' cfg t] same by simp
    have agree: "\<forall>j. j \<noteq> id1 \<longrightarrow>
        snd (InMemoryRateLimiter_limit cfg t i store) j = snd (InMemoryRateLimiter_limit cfg t i store') j"
    proof (intro allI impI)
      fix j assume j: "j \<noteq> id1"
      show "snd (InMemoryRateLimiter_limit cfg t i store) j = snd (InMemoryRateLimiter_limit cfg t i store') j"
      proof (cases "j = i")
        case True
        then show ?thesis using limit_result_depends_on_own_entry [of store i store' cfg t] same by simp
      next
        case False
        then have "i \<noteq> j" by simp
        then show ?thesis using Cons.prems j by (simp add: limit_other_identifier)
      qed
    qed
    show ?thesis
      using Cons.IH [OF agree] False res by (simp add: c split_beta)
  qed
qed

text \<open>
  Claim C8. For distinct identifiers \<open>id1\<close> and \<open>id2\<close>: a call \<open>limit(id1)\<close> leaves
  the stored entry of \<open>id2\<close> as it was, and for every sequence of calls the results
  returned for \<open>id2\<close>, and the final entry of \<open>id2\<close>, are the same as in the run from
  which all calls for \<open>id1\<close> have been removed.
\<close>

theorem distinct_identifiers_independent:
  assumes "id1 \<noteq> id2"
  shows "snd (InMemoryRateLimiter_limit cfg now id1 store) id2 = store id2
       \<and> results_for id2 (fst (limit_calls cfg calls store)) =
           results_for id2 (fst (limit_calls cfg (filter (\<lambda>c. snd c \<noteq> id1) calls) store))
       \<and> snd (limit_calls cfg calls store) id2 =
           snd (limit_calls cfg (filter (\<lambda>c. snd c \<noteq> id1) calls) store) id2"
proof -
  have frame: "snd (InMemoryRateLimiter_limit cfg now id1 store) id2 = store id2"
    using assms by (rule limit_other_identifier)
  have run: "filter (\<lambda>p. fst p \<noteq> id1) (fst (limit_calls cfg calls store)) =
           fst (limit_calls cfg (filter (\<lambda>c. snd c \<noteq> id1) calls) store)
       \<and> (\<forall>i. i \<noteq> id1 \<longrightarrow>
             snd (limit_calls cfg calls store) i =
             snd (limit_calls cfg (filter (\<lambda>c. snd c \<noteq> id1) calls) store) i)"
    by (rule limit_calls_without_identifier) simp
  have "filter (\<lambda>p. fst p = id2) (fst (limit_calls cfg calls store)) =
        filter (\<lambda>p. fst p = id2) (filter (\<lambda>p. fst p \<noteq> id1) (fst (limit_calls cfg calls store)))"
    using assms by (auto intro: filter_cong)
  then have res: "results_for id2 (fst (limit_calls cfg calls store)) =
           results_for id2 (fst (limit_calls cfg (filter (\<lambda>c. snd c \<noteq> id1) calls) store))"
    using run by (simp add: results_for_def)
  from frame res run assms show ?thesis by simp
qed

theorem distinct_identifiers_independent_witness:
  "snd (InMemoryRateLimiter_limit \<lparr>maxRequests = 1, windowSeconds = 60\<rparr> 5 ''a''
          [''b'' \<mapsto> \<lparr>count = 1, resetTime = 9\<rparr>]) ''b'' = Some \<lparr>count = 1, resetTime = 9\<rparr>
   \<and> results_for ''b'' (fst (limit_calls \<lparr>maxRequests = 1, windowSeconds = 60\<rparr>
          [(0, ''a''), (1, ''b''), (2, ''a''), (3, ''b'')] Map.empty)) =
       [\<lparr>success = True, remaining = 0, result_resetTime = None\<rparr>,
        \<lparr>success = False, remaining = 0, result_resetTime = Some 60001\<rparr>]"
  using distinct_identifiers_independent
    [of "''a''" "''b''" "\<lparr>maxRequests = 1, windowSeconds = 60\<rparr>" 5
        "[''b'' \<mapsto> \<lparr>count = 1, resetTime = 9\<rparr>]"]
    distinct_identifiers_independent
    [of "''a''" "''b''" "\<lparr>maxRequests = 1, windowSeconds = 60\<rparr>" 0 Map.empty
        "[(0, ''a''), (1, ''b''), (2, ''a''), (3, ''b'')]"]
  by (simp add: InMemoryRateLimiter_limit_def results_for_def)

subsection \<open>Denied calls\<close>

text \<open>
  Claim C9. When the local limiter denies a call (\<open>success = False\<close>), the store after
  the call is the store before it (the entry's count and \<open>resetTime\<close> are untouched),
  \<open>remaining\<close> is 0, and the \<open>resetTime\<close> of the result is the stored entry's
  \<open>resetTime\<close>.
\<close>

theorem denial_leaves_store_unchanged:
  assumes "\<not> success (fst (InMemoryRateLimiter_limit cfg now identifier store))"
  shows "snd (InMemoryRateLimiter_limit cfg now identifier store) = store
       \<and> remaining (fst (InMemoryRateLimiter_limit cfg now identifier store)) = 0
       \<and> (\<exists>e. store identifier = Some e
              \<and> result_resetTime (fst (InMemoryRateLimiter_limit cfg now identifier store))
                  = Some (resetTime e))"
  using assms
  by (auto simp add: InMemoryRateLimiter_limit_def Let_def split: option.splits if_splits)

theorem denial_leaves_store_unchanged_witness:
  "snd (InMemoryRateLimiter_limit \<lparr>maxRequests = 1, windowSeconds = 60\<rparr> 5 ''a''
          [''a'' \<mapsto> \<lparr>count = 1, resetTime = 60000\<rparr>]) = [''a'' \<mapsto> \<lparr>count = 1, resetTime = 60000\<rparr>]
   \<and> result_resetTime (fst (InMemoryRateLimiter_limit \<lparr>maxRequests = 1, windowSeconds = 60\<rparr> 5 ''a''
          [''a'' \<mapsto> \<lparr>count = 1, resetTime = 60000\<rparr>])) = Some 60000"
  using denial_leaves_store_unchanged
    [of "\<lparr>maxRequests = 1, windowSeconds = 60\<rparr>" 5 "''a''"
        "[''a'' \<mapsto> \<lparr>count = 1, resetTime = 60000\<rparr>]"]
  by (simp add: InMemoryRateLimiter_limit_def)

section \<open>Properties of the remote limiter\<close>

lemma upstash_never_raises:
  "\<exists>r. returned (UpstashRateLimiter_limit cfg fetch identifier) = Inr r"
  by (simp add: UpstashRateLimiter_limit_def split: prod.splits sum.splits)




text \<open>
  Claim C6. For every identifier: when the increment step succeeds with post-increment
  count \<open>n\<close>, the call returns \<open>success = False\<close>, \<open>remaining = 0\<close> and no \<open>resetTime\<close> if
  \<open>n\<close> exceeds \<open>maxRequests\<close>, and \<open>success = True\<close>, \<open>remaining = maxRequests - n\<close>
  otherwise, whatever happens to the \<^verbatim>\<open>expire\<close> request.
\<close>

theorem upstash_result_from_count:
  assumes "fetch (Incr (''rate_limit:'' @ identifier)) = Inr response"
    and "ok response" and "json_result response = Some n"
  shows "returned (UpstashRateLimiter_limit cfg fetch identifier) =
           (if n > maxRequests cfg
            then Inr \<lparr>success = False, remaining = 0, result_resetTime = None\<rparr>
            else Inr \<lparr>success = True, remaining = maxRequests cfg - n, result_resetTime = None\<rparr>)"
  using assms
  by (simp add: UpstashRateLimiter_limit_def UpstashRateLimiter_try_def Let_def)

theorem upstash_result_from_count_witness:
  "returned (UpstashRateLimiter_limit \<lparr>maxRequests = 10, windowSeconds = 60\<rparr> (store_counts 11) ''1.2.3.4'') =
      Inr \<lparr>success = False, remaining = 0, result_resetTime = None\<rparr>
   \<and> returned (UpstashRateLimiter_limit \<lparr>maxRequests = 10, windowSeconds = 60\<rparr> (store_counts 10) ''1.2.3.4'') =
      Inr \<lparr>success = True, remaining = 0, result_resetTime = None\<rparr>"
  using upstash_result_from_count [of "store_counts 11" "''1.2.3.4''" "\<lparr>ok = True, fetch_statusText = ''OK'', json_result = Some 11\<rparr>" 11 "\<lparr>maxRequests = 10, windowSeconds = 60\<rparr>"]
   upstash_result_from_count [of "store_counts 10" "''1.2.3.4''" "\<lparr>ok = True, fetch_statusText = ''OK'', json_result = Some 10\<rparr>" 10 "\<lparr>maxRequests = 10, windowSeconds = 60\<rparr>"]
  by simp

section \<open>Properties of the response envelope\<close>

lemma stringify_object:
  "SerializeJSONProperty call (JObj obj) = Some (JObj (JSON_members obj))"
  by (simp add: JSON_members_def)

lemma serialize_omits:
  "(SerializeJSONProperty True data = None) =
   (toJSON_result data \<in> {JUndefined, JSymbol, JFunction})"
proof (cases data)
  case (JObjToJSON ms r)
  then show ?thesis by (cases r) (simp_all add: toJSON_result_def)
qed (simp_all add: toJSON_result_def)

lemma success_data_member:
  "field (apiSuccess data st) ''data'' = SerializeJSONProperty True data"
  by (simp add: field_def apiSuccess_def NextResponse_json_def JSON_members_def
        split: option.splits)

text \<open>
  Claim C4 (as amended). For every input on which the constructors return a response:
  the success constructor produces \<open>success = True\<close>, no \<open>error\<close> and no \<open>code\<close> member,
  and a \<open>data\<close> member holding the serialized argument exactly when JSON serialization
  keeps the argument; \<open>data\<close> is absent when the argument (or what its \<^verbatim>\<open>toJSON\<close> method
  returns) is \<^verbatim>\<open>undefined\<close>, a symbol or a function, and present in every other case. The
  error constructor produces \<open>success = False\<close>, the \<open>error\<close> member with the message,
  and no \<open>data\<close> member; \<open>code\<close> is present exactly when a non-empty code was given. So
  no envelope has both \<open>data\<close> and \<open>error\<close>, and \<open>code\<close> occurs only in error envelopes.
\<close>

theorem envelope_fields:
  "field (apiSuccess data st) ''success'' = Some (JBool True)
   \<and> field (apiSuccess data st) ''data'' = SerializeJSONProperty True data
   \<and> (field (apiSuccess data st) ''data'' = None) =
       (toJSON_result data \<in> {JUndefined, JSymbol, JFunction})
   \<and> field (apiSuccess data st) ''error'' = None
   \<and> field (apiSuccess data st) ''code'' = None
   \<and> field (apiError message st' code) ''success'' = Some (JBool False)
   \<and> field (apiError message st' code) ''error'' = Some (JStr message)
   \<and> field (apiError message st' code) ''data'' = None
   \<and> field (apiError message st' code) ''code'' =
         (case code of None \<Rightarrow> None | Some c \<Rightarrow> if c = [] then None else Some (JStr c))"
proof -
  have s: "field (apiSuccess data st) ''success'' = Some (JBool True)"
    by (simp add: field_def apiSuccess_def NextResponse_json_def JSON_members_def)
  have e: "field (apiSuccess data st) ''error'' = None"
    "field (apiSuccess data st) ''code'' = None"
    by (simp_all add: field_def apiSuccess_def NextResponse_json_def JSON_members_def
          split: option.splits)
  have err: "field (apiError message st' code) ''success'' = Some (JBool False)"
    "field (apiError message st' code) ''error'' = Some (JStr message)"
    "field (apiError message st' code) ''data'' = None"
    "field (apiError message st' code) ''code'' =
         (case code of None \<Rightarrow> None | Some c \<Rightarrow> if c = [] then None else Some (JStr c))"
    by (simp_all add: field_def apiError_def NextResponse_json_def JSON_members_def
          spread_code_def split: option.splits)
  show ?thesis
    using s e err by (simp add: success_data_member serialize_omits)
qed

theorem envelope_fields_witness:
  "field (apiSuccess (JStr ''x'') (Some 201)) ''data'' = Some (JStr ''x'')
   \<and> field (apiSuccess (JArr [JNum 1, JUndefined]) None) ''data'' = Some (JArr [JNum 1, JNull])
   \<and> field (apiSuccess JFunction None) ''data'' = None
   \<and> field (apiSuccess (JObjToJSON [] JSymbol) None) ''data'' = None
   \<and> field (apiError ''x'' (Some 409) (Some ''CODE'')) ''code'' = Some (JStr ''CODE'')"
  using envelope_fields [of "JStr ''x''" "Some 201" "''x''" "Some 409" "Some ''CODE''"]
    envelope_fields [of "JArr [JNum 1, JUndefined]" None "''x''" "Some 409" "Some ''CODE''"]
    envelope_fields [of JFunction None "''x''" "Some 409" "Some ''CODE''"]
    envelope_fields [of "JObjToJSON [] JSymbol" None "''x''" "Some 409" "Some ''CODE''"]
  by (simp add: toJSON_result_def)

text \<open>
  Claim C4 as stated has the \<open>data\<close> member present for every input. For
  \<^verbatim>\<open>apiSuccess(undefined, 201)\<close> the serialized envelope has the single member
  \<open>success\<close>: neither \<open>data\<close> nor \<open>error\<close> is present.
\<close>

theorem success_of_undefined_has_no_data:
  "apiSuccess JUndefined (Some 201) =
     \<lparr>json_body = [(''success'', JBool True)], json_status = 201\<rparr>"
  by (simp add: apiSuccess_def NextResponse_json_def JSON_members_def default_status_def)

text \<open>
  Claim C10. An error envelope built with the empty string as code has no \<open>code\<close>
  member and is the envelope built with no code at all.
\<close>

theorem empty_code_is_omitted:
  "apiError message st (Some '''') = apiError message st None
   \<and> field (apiError message st (Some '''')) ''code'' = None"
  by (simp add: field_def apiError_def NextResponse_json_def JSON_members_def spread_code_def)

section \<open>Properties of the CORS boundary\<close>

lemma lower_names:
  "toLowerCase ''Access-Control-Allow-Origin'' = ''access-control-allow-origin''"
  "toLowerCase ''Access-Control-Allow-Methods'' = ''access-control-allow-methods''"
  "toLowerCase ''Access-Control-Allow-Headers'' = ''access-control-allow-headers''"
  "toLowerCase ''Access-Control-Max-Age'' = ''access-control-max-age''"
  "toLowerCase ''origin'' = ''origin''"
  "toLowerCase ''Origin'' = ''origin''"
  by code_simp+

lemma joined:
  "join ALLOWED_METHODS '', '' = ''GET, POST, PUT, DELETE, PATCH, OPTIONS''"
  "join ALLOWED_HEADERS '', '' = ''Content-Type, Authorization, X-Requested-With, Accept, Origin''"
  by (simp_all add: ALLOWED_METHODS_def ALLOWED_HEADERS_def)

lemma allowed_origin_nonempty: "x \<in> set (ALLOWED_ORIGINS app_url) \<Longrightarrow> x \<noteq> []"
  by (auto simp add: ALLOWED_ORIGINS_def List.map_filter_def Boolean_def split: option.splits if_splits)

lemma withCorsHeaders_clone:
  assumes "responses h a = Some r" and "headers_objects h (headers r) = Some m"
  shows "withCorsHeaders app_url request (Some a) h =
     Some (Suc (Suc (next_free h)),
       \<lparr>responses = (responses h)(Suc (Suc (next_free h)) \<mapsto>
            \<lparr>body = body r, status = status r, statusText = statusText r,
             headers = Suc (next_free h)\<rparr>),
        headers_objects = (headers_objects h)(next_free h \<mapsto> m,
            Suc (next_free h) \<mapsto> cors_map app_url request m),
        next_free = Suc (Suc (Suc (next_free h)))\<rparr>)"
proof -
  let ?n = "next_free h"
  let ?r' = "\<lparr>body = body r, status = status r, statusText = statusText r, headers = Suc ?n\<rparr>"
  let ?h2 = "\<lparr>responses = (responses h)(Suc (Suc ?n) \<mapsto> ?r'),
        headers_objects = (headers_objects h)(?n \<mapsto> m, Suc ?n \<mapsto> m),
        next_free = Suc (Suc (Suc ?n))\<rparr>"
  have clone: "(let (copy, h1) = new_Headers m h
                in Some (new_NextResponse (body r) (status r) (statusText r) (Some copy) h1))
               = Some (Suc (Suc ?n), ?h2)"
    by (simp add: new_Headers_def new_NextResponse_def Let_def)
  show ?thesis
    using assms clone allowed_origin_nonempty [of _ app_url]
    by (auto simp add: withCorsHeaders_def Let_def response_headers_set_def headers_set_def lower_names joined cors_map_def
          origin_allowed_def split: option.splits)
qed

lemma withCorsHeaders_synthesize:
  "withCorsHeaders app_url request None h =
     Some (Suc (next_free h),
       \<lparr>responses = (responses h)(Suc (next_free h) \<mapsto>
            \<lparr>body = None, status = 204, statusText = [], headers = next_free h\<rparr>),
        headers_objects = (headers_objects h)(next_free h \<mapsto> cors_map app_url request Map.empty),
        next_free = Suc (Suc (next_free h))\<rparr>)"
proof -
  let ?n = "next_free h"
  let ?r' = "\<lparr>body = None, status = 204, statusText = [], headers = ?n\<rparr>"
  let ?h2 = "\<lparr>responses = (responses h)(Suc ?n \<mapsto> ?r'),
        headers_objects = (headers_objects h)(?n \<mapsto> Map.empty),
        next_free = Suc (Suc ?n)\<rparr>"
  have fresh: "new_NextResponse None 204 [] None h = (Suc ?n, ?h2)"
    by (simp add: new_Headers_def new_NextResponse_def Let_def)
  show ?thesis
    using fresh allowed_origin_nonempty [of _ app_url]
    by (auto simp add: withCorsHeaders_def Let_def response_headers_set_def headers_set_def lower_names joined cors_map_def
          origin_allowed_def split: option.splits)
qed

lemma cors_map_other:
  "k \<notin> cors_names \<Longrightarrow> cors_map app_url request m k = m k"
  by (simp add: cors_map_def cors_names_def split: option.splits)

lemma cors_map_fixed:
  "cors_map app_url request m ''access-control-allow-methods'' =
     Some ''GET, POST, PUT, DELETE, PATCH, OPTIONS''"
  "cors_map app_url request m ''access-control-allow-headers'' =
     Some ''Content-Type, Authorization, X-Requested-With, Accept, Origin''"
  "cors_map app_url request m ''access-control-max-age'' = Some ''86400''"
  by (simp_all add: cors_map_def)

lemma cors_map_origin:
  "cors_map app_url request m ''access-control-allow-origin'' =
     (case origin_allowed app_url request of
        None \<Rightarrow> m ''access-control-allow-origin''
      | Some x \<Rightarrow> Some x)"
  by (simp add: cors_map_def split: option.splits)

text \<open>
  Claim C7. For every request and every supplied response in a store of a running
  program: after the call the supplied response object is as it was (same body, status,
  status text and headers reference) and so are the entries of its headers object, so
  every header read from it gives what it gave before; the returned response is another
  object with another headers object, and its status, status text and body are those of
  the original. The CORS headers are on the copy: it carries the three fixed headers,
  the request's origin as \<^verbatim>\<open>Access-Control-Allow-Origin\<close> when that origin is listed (and
  the original's value of that header otherwise), and it agrees with the original on
  every other name. No object that existed before the call is changed.
\<close>

theorem withCorsHeaders_does_not_mutate:
  assumes "heap_ok h" and "responses h a = Some r" and "headers_objects h (headers r) = Some m"
  shows "\<exists>a' h' r'. withCorsHeaders app_url request (Some a) h = Some (a', h')
     \<and> responses h' a = Some r
     \<and> headers_objects h' (headers r) = Some m
     \<and> a' \<noteq> a
     \<and> responses h' a' = Some r'
     \<and> status r' = status r \<and> statusText r' = statusText r \<and> body r' = body r
     \<and> headers r' \<noteq> headers r
     \<and> response_headers_get h' a' ''Access-Control-Allow-Origin'' =
           (case headers_get (request_headers request) ''origin'' of
              None \<Rightarrow> headers_get m ''Access-Control-Allow-Origin''
            | Some x \<Rightarrow> if x \<in> set (ALLOWED_ORIGINS app_url) then Some x
                        else headers_get m ''Access-Control-Allow-Origin'')
     \<and> response_headers_get h' a' ''Access-Control-Allow-Methods'' =
           Some ''GET, POST, PUT, DELETE, PATCH, OPTIONS''
     \<and> response_headers_get h' a' ''Access-Control-Allow-Headers'' =
           Some ''Content-Type, Authorization, X-Requested-With, Accept, Origin''
     \<and> response_headers_get h' a' ''Access-Control-Max-Age'' = Some ''86400''
     \<and> (\<forall>name. toLowerCase name \<notin> cors_names \<longrightarrow>
            response_headers_get h' a' name = headers_get m name)
     \<and> (\<forall>name. response_headers_get h' a name = headers_get m name)
     \<and> (\<forall>b. b < next_free h \<longrightarrow>
            responses h' b = responses h b \<and> headers_objects h' b = headers_objects h b)"
proof -
  let ?n = "next_free h"
  let ?r' = "\<lparr>body = body r, status = status r, statusText = statusText r, headers = Suc ?n\<rparr>"
  let ?h' = "\<lparr>responses = (responses h)(Suc (Suc ?n) \<mapsto> ?r'),
        headers_objects = (headers_objects h)(?n \<mapsto> m,
            Suc ?n \<mapsto> cors_map app_url request m),
        next_free = Suc (Suc (Suc ?n))\<rparr>"
  have run: "withCorsHeaders app_url request (Some a) h = Some (Suc (Suc ?n), ?h')"
    using assms(2,3) by (rule withCorsHeaders_clone)
  have old: "a < ?n" "headers r < ?n"
    using assms(1,2) by (auto simp add: heap_ok_def)
  have orig: "responses ?h' a = Some r" using old assms(2) by simp
  have orig_headers: "headers_objects ?h' (headers r) = Some m" using old assms(3) by simp
  have distinct: "Suc (Suc ?n) \<noteq> a" using old by simp
  have copy: "responses ?h' (Suc (Suc ?n)) = Some ?r'" by simp
  have copy_headers: "headers ?r' \<noteq> headers r" using old by simp
  have get: "\<And>name. response_headers_get ?h' (Suc (Suc ?n)) name =
               cors_map app_url request m (toLowerCase name)"
    by (simp add: response_headers_get_def headers_get_def)
  have acao: "response_headers_get ?h' (Suc (Suc ?n)) ''Access-Control-Allow-Origin'' =
           (case headers_get (request_headers request) ''origin'' of
              None \<Rightarrow> headers_get m ''Access-Control-Allow-Origin''
            | Some x \<Rightarrow> if x \<in> set (ALLOWED_ORIGINS app_url) then Some x
                        else headers_get m ''Access-Control-Allow-Origin'')"
    by (simp add: get lower_names cors_map_origin origin_allowed_def headers_get_def
          split: option.splits)
  have fixed: "response_headers_get ?h' (Suc (Suc ?n)) ''Access-Control-Allow-Methods'' =
           Some ''GET, POST, PUT, DELETE, PATCH, OPTIONS''"
    "response_headers_get ?h' (Suc (Suc ?n)) ''Access-Control-Allow-Headers'' =
           Some ''Content-Type, Authorization, X-Requested-With, Accept, Origin''"
    "response_headers_get ?h' (Suc (Suc ?n)) ''Access-Control-Max-Age'' = Some ''86400''"
    by (simp_all add: get lower_names cors_map_fixed)
  have others: "\<forall>name. toLowerCase name \<notin> cors_names \<longrightarrow>
            response_headers_get ?h' (Suc (Suc ?n)) name = headers_get m name"
    by (simp add: get headers_get_def cors_map_other)
  have orig_get: "\<forall>name. response_headers_get ?h' a name = headers_get m name"
    using old assms(2,3) by (simp add: response_headers_get_def)
  have frame: "\<forall>b. b < ?n \<longrightarrow>
            responses ?h' b = responses h b \<and> headers_objects ?h' b = headers_objects h b"
    by simp
  show ?thesis
    by (intro exI conjI, rule run, rule orig, rule orig_headers, rule distinct, rule copy,
        simp, simp, simp, rule copy_headers, rule acao, rule fixed(1), rule fixed(2),
        rule fixed(3), rule others, rule orig_get, rule frame)
qed

theorem withCorsHeaders_does_not_mutate_witness:
  "\<exists>a' h'. withCorsHeaders None request_from_localhost (Some 0) wildcard_heap = Some (a', h')
     \<and> a' \<noteq> 0
     \<and> responses h' 0 = Some \<lparr>body = None, status = 200, statusText = ''OK'', headers = 1\<rparr>
     \<and> headers_objects h' 1 = Some [''access-control-allow-origin'' \<mapsto> ''*'']
     \<and> response_headers_get h' 0 ''Access-Control-Allow-Origin'' = Some ''*''
     \<and> response_headers_get h' 0 ''Access-Control-Max-Age'' = None
     \<and> response_headers_get h' a' ''Access-Control-Allow-Origin'' = Some ''http://localhost:3000''
     \<and> response_headers_get h' a' ''Access-Control-Max-Age'' = Some ''86400''"
proof -
  have ok: "heap_ok wildcard_heap"
    by (auto simp add: heap_ok_def wildcard_heap_def split: if_splits)
  have r: "responses wildcard_heap 0 =
             Some \<lparr>body = None, status = 200, statusText = ''OK'', headers = 1\<rparr>"
    by (simp add: wildcard_heap_def)
  have m: "headers_objects wildcard_heap
             (headers \<lparr>body = None, status = 200, statusText = ''OK'', headers = 1\<rparr>) =
           Some [''access-control-allow-origin'' \<mapsto> ''*'']"
    by (simp add: wildcard_heap_def)
  have origin: "headers_get (request_headers request_from_localhost) ''origin'' =
                  Some ''http://localhost:3000''"
    by (simp add: headers_get_def request_from_localhost_def lower_names)
  have listed: "''http://localhost:3000'' \<in> set (ALLOWED_ORIGINS None)"
    by (simp add: ALLOWED_ORIGINS_def List.map_filter_def Boolean_def)
  from withCorsHeaders_does_not_mutate [OF ok r m, of None request_from_localhost]
  obtain a' h' where res:
      "withCorsHeaders None request_from_localhost (Some 0) wildcard_heap = Some (a', h')"
      "a' \<noteq> 0"
      "responses h' 0 = Some \<lparr>body = None, status = 200, statusText = ''OK'', headers = 1\<rparr>"
      "headers_objects h' 1 = Some [''access-control-allow-origin'' \<mapsto> ''*'']"
      "response_headers_get h' a' ''Access-Control-Allow-Origin'' =
         (case headers_get (request_headers request_from_localhost) ''origin'' of
            None \<Rightarrow> headers_get [''access-control-allow-origin'' \<mapsto> ''*'']
                      ''Access-Control-Allow-Origin''
          | Some x \<Rightarrow> if x \<in> set (ALLOWED_ORIGINS None) then Some x
                      else headers_get [''access-control-allow-origin'' \<mapsto> ''*'']
                             ''Access-Control-Allow-Origin'')"
      "response_headers_get h' a' ''Access-Control-Max-Age'' = Some ''86400''"
      "\<forall>name. response_headers_get h' 0 name =
         headers_get [''access-control-allow-origin'' \<mapsto> ''*''] name"
    by auto
  have "response_headers_get h' a' ''Access-Control-Allow-Origin'' = Some ''http://localhost:3000''"
    using res(5) listed by (simp add: origin)
  moreover have "response_headers_get h' 0 ''Access-Control-Allow-Origin'' = Some ''*''"
    using res(7) by (simp add: headers_get_def lower_names)
  moreover have "response_headers_get h' 0 ''Access-Control-Max-Age'' = None"
    using res(7) by (simp add: headers_get_def lower_names)
  ultimately show ?thesis using res(1-4,6) by simp
qed

text \<open>
  Claim C5 (as amended). For every request and every supplied (or omitted) response: if
  the request's \<^verbatim>\<open>Origin\<close> is on the allow-list, the returned response carries that exact
  string as \<^verbatim>\<open>Access-Control-Allow-Origin\<close>; if the header is absent or its value is not
  listed, the boundary does not set \<^verbatim>\<open>Access-Control-Allow-Origin\<close>, so the returned
  response has the value the supplied response already carried, and none when the
  supplied response carried none or no response was supplied; in every case the returned
  response carries the fixed \<^verbatim>\<open>Access-Control-Allow-Methods\<close>,
  \<^verbatim>\<open>Access-Control-Allow-Headers\<close> and \<^verbatim>\<open>Access-Control-Max-Age\<close> values.
\<close>

theorem cors_headers_of_result:
  assumes "response_valid h response"
  shows "\<exists>a' h'. withCorsHeaders app_url request response h = Some (a', h')
     \<and> (\<forall>x. headers_get (request_headers request) ''Origin'' = Some x
              \<and> x \<in> set (ALLOWED_ORIGINS app_url) \<longrightarrow>
            response_headers_get h' a' ''Access-Control-Allow-Origin'' = Some x)
     \<and> ((headers_get (request_headers request) ''Origin'' = None
          \<or> (\<exists>x. headers_get (request_headers request) ''Origin'' = Some x
                 \<and> x \<notin> set (ALLOWED_ORIGINS app_url))) \<longrightarrow>
          response_headers_get h' a' ''Access-Control-Allow-Origin'' =
            (case response of
               None \<Rightarrow> None
             | Some a \<Rightarrow> response_headers_get h a ''Access-Control-Allow-Origin''))
     \<and> response_headers_get h' a' ''Access-Control-Allow-Methods'' =
           Some ''GET, POST, PUT, DELETE, PATCH, OPTIONS''
     \<and> response_headers_get h' a' ''Access-Control-Allow-Headers'' =
           Some ''Content-Type, Authorization, X-Requested-With, Accept, Origin''
     \<and> response_headers_get h' a' ''Access-Control-Max-Age'' = Some ''86400''"
proof (cases response)
  case None
  show ?thesis
    unfolding None withCorsHeaders_synthesize
    by (auto simp add: response_headers_get_def headers_get_def lower_names cors_map_fixed
          cors_map_origin origin_allowed_def)
next
  case (Some a)
  from assms Some obtain r m where r: "responses h a = Some r"
    and m: "headers_objects h (headers r) = Some m"
    by (auto simp add: response_valid_def split: option.splits)
  show ?thesis
    unfolding Some withCorsHeaders_clone [OF r m]
    using r m
    by (auto simp add: response_headers_get_def headers_get_def lower_names cors_map_fixed
          cors_map_origin origin_allowed_def)
qed

theorem cors_headers_of_result_witness:
  "result_header (withCorsHeaders None request_from_localhost (Some 0) wildcard_heap)
     ''Access-Control-Allow-Origin'' = Some ''http://localhost:3000''
   \<and> result_header (withCorsHeaders None request_from_localhost (Some 0) wildcard_heap)
     ''Access-Control-Allow-Methods'' = Some ''GET, POST, PUT, DELETE, PATCH, OPTIONS''
   \<and> result_header (withCorsHeaders None request_from_localhost (Some 0) wildcard_heap)
     ''Access-Control-Max-Age'' = Some ''86400''"
proof -
  have valid: "response_valid wildcard_heap (Some 0)"
    by (simp add: response_valid_def wildcard_heap_def)
  have origin: "headers_get (request_headers request_from_localhost) ''Origin'' =
                  Some ''http://localhost:3000''"
    by (simp add: headers_get_def request_from_localhost_def lower_names)
  have listed: "''http://localhost:3000'' \<in> set (ALLOWED_ORIGINS None)"
    by (simp add: ALLOWED_ORIGINS_def List.map_filter_def Boolean_def)
  from cors_headers_of_result [OF valid, of None request_from_localhost] origin listed
  show ?thesis by (auto simp add: result_header_def)
qed

text \<open>
  Claim C5 as stated has no \<^verbatim>\<open>Access-Control-Allow-Origin\<close> on the returned response
  whenever the request has no \<^verbatim>\<open>Origin\<close>. The headers of the supplied response are
  copied and never removed: for a supplied response that already carries
  \<^verbatim>\<open>Access-Control-Allow-Origin: *\<close> and a request without \<^verbatim>\<open>Origin\<close>, the returned
  response carries \<^verbatim>\<open>*\<close>.
\<close>

theorem supplied_allow_origin_is_kept:
  "result_header (withCorsHeaders None request_without_origin (Some 0) wildcard_heap)
     ''Access-Control-Allow-Origin'' = Some ''*''"
proof -
  have r: "responses wildcard_heap 0 =
             Some \<lparr>body = None, status = 200, statusText = ''OK'', headers = 1\<rparr>"
    by (simp add: wildcard_heap_def)
  have m: "headers_objects wildcard_heap
             (headers \<lparr>body = None, status = 200, statusText = ''OK'', headers = 1\<rparr>) =
           Some [''access-control-allow-origin'' \<mapsto> ''*'']"
    by (simp add: wildcard_heap_def)
  show ?thesis
    unfolding withCorsHeaders_clone [OF r m]
    by (simp add: result_header_def response_headers_get_def headers_get_def lower_names
          cors_map_origin origin_allowed_def request_without_origin_def)
qed

end
